theory Spec2Isabelle
  imports Main "HOL-Library.Sublist"
begin

section \<open>Python values used by AddressBook.py\<close>

text \<open>
  A Python \<open>str\<close> is modelled as a \<open>string\<close> whose characters stand for the code points
  0..255, so \<open>length\<close> counts code points as \<open>len\<close> does. An exception is a value of
  \<open>exn\<close>; a call that may raise returns \<open>exn + 'a\<close> with \<open>Inl\<close> for the raise.
\<close>

datatype exn = ValueError | KeyError | TypeError | AttributeError | OverflowError

definition ord :: "char \<Rightarrow> nat" where
  "ord c = of_char c"

text \<open>The character classes of \<open>re\<close> and of \<open>str\<close> on code points below 256.\<close>

definition is_decimal :: "char \<Rightarrow> bool" where
  "is_decimal c = (48 \<le> ord c \<and> ord c \<le> 57)"

text \<open>\<open>str.isdigit\<close> also accepts the superscript digits U+00B2, U+00B3 and U+00B9.\<close>

definition char_isdigit :: "char \<Rightarrow> bool" where
  "char_isdigit c = (is_decimal c \<or> ord c = 178 \<or> ord c = 179 \<or> ord c = 185)"

definition is_letter :: "char \<Rightarrow> bool" where
  "is_letter c = ((65 \<le> ord c \<and> ord c \<le> 90) \<or> (97 \<le> ord c \<and> ord c \<le> 122))"

definition char_isspace :: "char \<Rightarrow> bool" where
  "char_isspace c = ((9 \<le> ord c \<and> ord c \<le> 13) \<or> (28 \<le> ord c \<and> ord c \<le> 32)
     \<or> ord c = 133 \<or> ord c = 160)"

definition isdigit :: "string \<Rightarrow> bool" where
  "isdigit s = (s \<noteq> [] \<and> list_all char_isdigit s)"

definition isspace :: "string \<Rightarrow> bool" where
  "isspace s = (s \<noteq> [] \<and> list_all char_isspace s)"




text \<open>\<open>int(s)\<close> for a string that passed \<open>isdigit\<close>: the superscript digits are no decimal
  digits and make \<open>int\<close> raise ValueError.\<close>

definition digit_val :: "char \<Rightarrow> nat" where
  "digit_val c = ord c - 48"

definition py_int :: "string \<Rightarrow> exn + nat" where
  "py_int s = (if s \<noteq> [] \<and> list_all is_decimal s
               then Inr (foldl (\<lambda>a c. 10 * a + digit_val c) 0 s) else Inl ValueError)"

subsection \<open>Regular expressions and \<open>re.fullmatch\<close>\<close>

datatype regex = Nothing | Empty | Class "char \<Rightarrow> bool" | Seq regex regex | Alt regex regex
  | Star regex

fun nullable :: "regex \<Rightarrow> bool" where
  "nullable Nothing = False"
| "nullable Empty = True"
| "nullable (Class p) = False"
| "nullable (Seq r s) = (nullable r \<and> nullable s)"
| "nullable (Alt r s) = (nullable r \<or> nullable s)"
| "nullable (Star r) = True"

fun deriv :: "char \<Rightarrow> regex \<Rightarrow> regex" where
  "deriv c Nothing = Nothing"
| "deriv c Empty = Nothing"
| "deriv c (Class p) = (if p c then Empty else Nothing)"
| "deriv c (Seq r s) =
     (if nullable r then Alt (Seq (deriv c r) s) (deriv c s) else Seq (deriv c r) s)"
| "deriv c (Alt r s) = Alt (deriv c r) (deriv c s)"
| "deriv c (Star r) = Seq (deriv c r) (Star r)"

fun derivs :: "string \<Rightarrow> regex \<Rightarrow> regex" where
  "derivs [] r = r"
| "derivs (c # cs) r = derivs cs (deriv c r)"

definition fullmatch :: "regex \<Rightarrow> string \<Rightarrow> bool" where
  "fullmatch r s = nullable (derivs s r)"

fun lit :: "string \<Rightarrow> regex" where
  "lit [] = Empty"
| "lit (c # cs) = Seq (Class (\<lambda>x. x = c)) (lit cs)"

fun rep :: "nat \<Rightarrow> regex \<Rightarrow> regex" where
  "rep 0 r = Empty"
| "rep (Suc n) r = Seq r (rep n r)"

definition at_least :: "nat \<Rightarrow> regex \<Rightarrow> regex" where
  "at_least n r = Seq (rep n r) (Star r)"

section \<open>Calendar dates (\<open>datetime.date\<close>)\<close>

record date =
  year :: nat
  month :: nat
  day :: nat

definition is_leap :: "nat \<Rightarrow> bool" where
  "is_leap y = (if y mod 100 = 0 then y mod 400 = 0 else y mod 4 = 0)"

definition days_in_month :: "nat \<Rightarrow> nat \<Rightarrow> nat" where
  "days_in_month y m =
     (if m = 2 then (if is_leap y then 29 else 28)
      else if m = 4 \<or> m = 6 \<or> m = 9 \<or> m = 11 then 30 else 31)"

text \<open>\<open>date(y, m, d)\<close> raises ValueError outside the years 1..9999 or the month's days.\<close>

definition date_new :: "nat \<Rightarrow> nat \<Rightarrow> nat \<Rightarrow> exn + date" where
  "date_new y m d =
     (if 1 \<le> y \<and> y \<le> 9999 \<and> 1 \<le> m \<and> m \<le> 12 \<and> 1 \<le> d \<and> d \<le> days_in_month y m
      then Inr \<lparr>year = y, month = m, day = d\<rparr> else Inl ValueError)"

definition replace_year :: "date \<Rightarrow> nat \<Rightarrow> exn + date" where
  "replace_year d y = date_new y (month d) (day d)"

definition days_before_year :: "nat \<Rightarrow> nat" where
  "days_before_year y = (y - 1) * 365 + (y - 1) div 4 - (y - 1) div 100 + (y - 1) div 400"

definition days_before_month :: "nat \<Rightarrow> nat \<Rightarrow> nat" where
  "days_before_month y m = sum_list (map (days_in_month y) [1..<m])"

definition toordinal :: "date \<Rightarrow> nat" where
  "toordinal d = days_before_year (year d) + days_before_month (year d) (month d) + day d"

text \<open>Dates compare as the triples (year, month, day).\<close>

definition date_less :: "date \<Rightarrow> date \<Rightarrow> bool" where
  "date_less a b =
     (year a < year b \<or> (year a = year b \<and> (month a < month b
        \<or> (month a = month b \<and> day a < day b))))"

definition date_le :: "date \<Rightarrow> date \<Rightarrow> bool" where
  "date_le a b = (date_less a b \<or> (year a = year b \<and> month a = month b \<and> day a = day b))"

text \<open>
  \<open>date.fromisoformat\<close> on the calendar form \<open>YYYY-MM-DD\<close>. Interpreters from 3.11 on read
  the basic and the week forms as well; those are not modelled and are rejected here.
\<close>

definition fromisoformat :: "string \<Rightarrow> exn + date" where
  "fromisoformat s =
     (if length s = 10 \<and> s ! 4 = CHR ''-'' \<and> s ! 7 = CHR ''-''
         \<and> list_all is_decimal (take 4 s) \<and> list_all is_decimal (take 2 (drop 5 s))
         \<and> list_all is_decimal (drop 8 s)
      then (case (py_int (take 4 s), py_int (take 2 (drop 5 s)), py_int (drop 8 s)) of
              (Inr y, Inr m, Inr d) \<Rightarrow> date_new y m d
            | _ \<Rightarrow> Inl ValueError)
      else Inl ValueError)"

fun zero_pad :: "nat \<Rightarrow> nat \<Rightarrow> string" where
  "zero_pad 0 n = []"
| "zero_pad (Suc w) n = zero_pad w (n div 10) @ [char_of (48 + n mod 10)]"

definition isoformat :: "date \<Rightarrow> string" where
  "isoformat d = zero_pad 4 (year d) @ ''-'' @ zero_pad 2 (month d) @ ''-'' @ zero_pad 2 (day d)"

section \<open>Fields\<close>

text \<open>
  \<open>AbstractField\<close> declares \<open>_validate\<close> abstract. Each subclass is given by the method names
  written in its class body; a name of the form \<open>__x\<close> written inside a class body is stored
  under its mangled form \<open>_Class__x\<close>.
\<close>

datatype field_class = Name | Phone | Email | Birthday | Address

fun class_name :: "field_class \<Rightarrow> string" where
  "class_name Name = ''Name''"
| "class_name Phone = ''Phone''"
| "class_name Email = ''Email''"
| "class_name Birthday = ''Birthday''"
| "class_name Address = ''Address''"

fun class_body :: "field_class \<Rightarrow> string list" where
  "class_body Name = [''__validate'']"
| "class_body Phone = [''_validate'']"
| "class_body Email = [''_validate'']"
| "class_body Birthday = [''_validate'', ''get_date'']"
| "class_body Address = [''_validate'']"

definition mangle :: "string \<Rightarrow> string \<Rightarrow> string" where
  "mangle cls ident =
     (if take 2 ident = ''__'' \<and> drop (length ident - 2) ident \<noteq> ''__''
      then ''_'' @ cls @ ident else ident)"

definition class_dict :: "field_class \<Rightarrow> string list" where
  "class_dict cls = map (mangle (class_name cls)) (class_body cls)"

text \<open>The abstract methods a subclass inherits from \<open>AbstractField\<close> and does not override.\<close>

definition abstractmethods :: "field_class \<Rightarrow> string list" where
  "abstractmethods cls = filter (\<lambda>m. m \<notin> set (class_dict cls)) [''_validate'']"

text \<open>The method bodies. A body that ends without \<open>return\<close> gives \<open>None\<close>.\<close>

definition AbstractField_validate :: "string \<Rightarrow> exn + string option" where
  "AbstractField_validate v = Inr None"

text \<open>\<open>Name.__validate\<close>, stored in the class as \<open>_Name__validate\<close>.\<close>

definition Name_validate :: "string \<Rightarrow> exn + string option" where
  "Name_validate v = (if \<not> (length v > 2) then Inl ValueError else Inr None)"

definition phone_pattern :: regex where
  "phone_pattern =
     Alt (Seq (lit ''+380'') (rep 9 (Class is_decimal)))
    (Alt (Seq (lit ''380'') (rep 9 (Class is_decimal)))
    (Alt (Seq (lit ''80'') (rep 9 (Class is_decimal)))
         (Seq (lit ''0'') (rep 9 (Class is_decimal)))))"

text \<open>\<open>re.sub(r'[ \(\)\-]', '', value)\<close>.\<close>

definition strip_separators :: "string \<Rightarrow> string" where
  "strip_separators v =
     filter (\<lambda>c. \<not> (c = CHR '' '' \<or> c = CHR ''('' \<or> c = CHR '')'' \<or> c = CHR ''-'')) v"

definition Phone_validate :: "string \<Rightarrow> exn + string option" where
  "Phone_validate v0 =
     (let v = strip_separators v0 in
      if \<not> fullmatch phone_pattern v then Inl ValueError
      else Inr (Some (''+380'' @ drop (length v - 9) v)))"

text \<open>The class \<open>[\S.]\<close>: a character that is no white space, or a dot.\<close>

definition non_space_or_dot :: "char \<Rightarrow> bool" where
  "non_space_or_dot c = (if char_isspace c then c = CHR ''.'' else True)"

definition email_pattern :: regex where
  "email_pattern =
     Seq (rep 1 (Class is_letter))
    (Seq (at_least 1 (Class non_space_or_dot))
    (Seq (lit ''@'')
    (Seq (at_least 1 (Class is_letter))
    (Seq (lit ''.'') (at_least 2 (Class is_letter))))))"

definition Email_validate :: "string \<Rightarrow> exn + string option" where
  "Email_validate v = (if \<not> fullmatch email_pattern v then Inl ValueError else Inr None)"

definition Birthday_validate :: "date \<Rightarrow> string \<Rightarrow> exn + string option" where
  "Birthday_validate today v =
     (case fromisoformat v of
        Inl e \<Rightarrow> Inl ValueError
      | Inr b_day \<Rightarrow> if year b_day > year today then Inl ValueError else Inr None)"

definition Address_validate :: "string \<Rightarrow> exn + string option" where
  "Address_validate v =
     (if isspace v then Inl ValueError
      else if \<not> (5 \<le> length v \<and> length v \<le> 50) then Inl ValueError
      else Inr None)"

text \<open>The validation method written in the body of each subclass.\<close>

definition own_validate :: "field_class \<Rightarrow> date \<Rightarrow> string \<Rightarrow> exn + string option" where
  "own_validate cls today v =
     (case cls of
        Name \<Rightarrow> Name_validate v
      | Phone \<Rightarrow> Phone_validate v
      | Email \<Rightarrow> Email_validate v
      | Birthday \<Rightarrow> Birthday_validate today v
      | Address \<Rightarrow> Address_validate v)"

text \<open>
  \<open>self._validate(value)\<close>: the method found under the name \<open>_validate\<close>, in the class's own
  dictionary first and in \<open>AbstractField\<close> otherwise.
\<close>

definition call_validate :: "field_class \<Rightarrow> date \<Rightarrow> string \<Rightarrow> exn + string option" where
  "call_validate cls today v =
     (if ''_validate'' \<in> set (class_dict cls) then own_validate cls today v
      else AbstractField_validate v)"

text \<open>The \<open>value\<close> setter: validate, drop what \<open>_validate\<close> returned, store the argument.\<close>

definition value_setter :: "field_class \<Rightarrow> date \<Rightarrow> string \<Rightarrow> exn + string" where
  "value_setter cls today v =
     (case call_validate cls today v of Inl e \<Rightarrow> Inl e | Inr _ \<Rightarrow> Inr v)"

text \<open>
  \<open>Cls(value)\<close>: a class that still has an abstract method cannot be instantiated (TypeError);
  otherwise \<open>__init__\<close> runs the setter. The result is the field's stored value, which is
  what \<open>__str__\<close> returns.
\<close>

definition AbstractField_init :: "field_class \<Rightarrow> date \<Rightarrow> string \<Rightarrow> exn + string" where
  "AbstractField_init cls today v =
     (if abstractmethods cls \<noteq> [] then Inl TypeError else value_setter cls today v)"

section \<open>Record\<close>

text \<open>
  A field object is represented by its stored value, which is what \<open>str\<close> and \<open>==\<close> on
  fields read; an absent optional field is \<open>None\<close>. \<open>'s\<close> is the type of the string
  values: \<open>string\<close> everywhere but in \<open>search\<close>, whose texts range over a larger alphabet
  (see there).
\<close>

record 's Record_of =
  name :: 's
  phones :: "'s list"
  email :: "'s option"
  birthday :: "'s option"
  address :: "'s option"

type_synonym Record = "string Record_of"

text \<open>
  The names bound in the body of \<open>class Record\<close>, whose only base class is \<open>object\<close>, and
  the attributes \<open>__init__\<close> assigns on the instance.
\<close>

definition Record_defs :: "string list" where
  "Record_defs = [''__init__'', ''add_phone'', ''remove_phone'', ''change_phone'',
     ''change_email'', ''change_birthday'', ''days_to_birthday'', ''change_address'',
     ''__str__'', ''__repr__'', ''to_dict'']"

definition instance_attrs :: "string list" where
  "instance_attrs = [''name'', ''phones'', ''email'', ''birthday'', ''address'']"

text \<open>
  \<open>self.nm(arg)\<close> on a Record whose instance attributes are \<open>inst\<close>: the name is looked up
  on the instance and then in the class body, and AttributeError is raised when neither
  binds it. \<open>bound\<close> is what calling a bound name with one argument would compute.
\<close>

type_synonym bound = "string \<Rightarrow> string \<Rightarrow> exn + string"

definition call_attr :: "bound \<Rightarrow> string list \<Rightarrow> string \<Rightarrow> string \<Rightarrow> exn + string" where
  "call_attr bound inst nm arg =
     (if nm \<in> set inst \<or> nm \<in> set Record_defs then bound nm arg else Inl AttributeError)"

text \<open>A list comprehension and a conditional expression over a call that may raise.\<close>

fun map_exn :: "('a \<Rightarrow> exn + 'b) \<Rightarrow> 'a list \<Rightarrow> exn + 'b list" where
  "map_exn f [] = Inr []"
| "map_exn f (x # xs) =
     (case f x of Inl e \<Rightarrow> Inl e
      | Inr y \<Rightarrow> (case map_exn f xs of Inl e \<Rightarrow> Inl e | Inr ys \<Rightarrow> Inr (y # ys)))"

definition opt_exn :: "('a \<Rightarrow> exn + 'b) \<Rightarrow> 'a option \<Rightarrow> exn + 'b option" where
  "opt_exn f x =
     (case x of None \<Rightarrow> Inr None
      | Some v \<Rightarrow> (case f v of Inl e \<Rightarrow> Inl e | Inr y \<Rightarrow> Inr (Some y)))"

definition Record_init ::
  "bound \<Rightarrow> string \<Rightarrow> string list \<Rightarrow> string option \<Rightarrow> string option \<Rightarrow> string option
    \<Rightarrow> exn + Record" where
  "Record_init bound nm phs em bd ad =
     (case call_attr bound [] ''_name'' nm of Inl e \<Rightarrow> Inl e | Inr n \<Rightarrow>
     (case map_exn (call_attr bound [''name''] ''_phone'') phs of Inl e \<Rightarrow> Inl e | Inr ps \<Rightarrow>
     (case opt_exn (call_attr bound [''name'', ''phones''] ''_email'') em of
        Inl e \<Rightarrow> Inl e | Inr em' \<Rightarrow>
     (case opt_exn (call_attr bound [''name'', ''phones'', ''email''] ''_birthday'') bd of
        Inl e \<Rightarrow> Inl e | Inr bd' \<Rightarrow>
     (case opt_exn (call_attr bound [''name'', ''phones'', ''email'', ''birthday'']
              ''_address'') ad of
        Inl e \<Rightarrow> Inl e
      | Inr ad' \<Rightarrow>
          Inr \<lparr>name = n, phones = ps, email = em', birthday = bd', address = ad'\<rparr>)))))"

text \<open>
  The mutating methods return what the call raised (or \<open>Inr ()\<close>) together with the record
  after the call.
\<close>

definition add_phone :: "bound \<Rightarrow> Record \<Rightarrow> string \<Rightarrow> (exn + unit) \<times> Record" where
  "add_phone bound self phone =
     (if phone \<in> set (phones self) then (Inl ValueError, self)
      else (case call_attr bound instance_attrs ''_phone'' phone of
              Inl e \<Rightarrow> (Inl e, self)
            | Inr p \<Rightarrow> (Inr (), self\<lparr>phones := phones self @ [p]\<rparr>)))"

definition remove_phone :: "bound \<Rightarrow> Record \<Rightarrow> string \<Rightarrow> (exn + unit) \<times> Record" where
  "remove_phone bound self phone =
     (case call_attr bound instance_attrs ''_phone'' phone of
        Inl e \<Rightarrow> (Inl e, self)
      | Inr p \<Rightarrow>
          if p \<notin> set (phones self) then (Inl ValueError, self)
          else (Inr (), self\<lparr>phones := remove1 p (phones self)\<rparr>))"

definition change_email :: "bound \<Rightarrow> Record \<Rightarrow> string \<Rightarrow> (exn + unit) \<times> Record" where
  "change_email bound self em =
     (case call_attr bound instance_attrs ''_email'' em of
        Inl e \<Rightarrow> (Inl e, self)
      | Inr v \<Rightarrow> (Inr (), self\<lparr>email := Some v\<rparr>))"

definition change_birthday :: "bound \<Rightarrow> Record \<Rightarrow> string \<Rightarrow> (exn + unit) \<times> Record" where
  "change_birthday bound self bd =
     (case call_attr bound instance_attrs ''_birthday'' bd of
        Inl e \<Rightarrow> (Inl e, self)
      | Inr v \<Rightarrow> (Inr (), self\<lparr>birthday := Some v\<rparr>))"

definition change_address :: "bound \<Rightarrow> Record \<Rightarrow> string \<Rightarrow> (exn + unit) \<times> Record" where
  "change_address bound self ad =
     (case call_attr bound instance_attrs ''_address'' ad of
        Inl e \<Rightarrow> (Inl e, self)
      | Inr v \<Rightarrow> (Inr (), self\<lparr>address := Some v\<rparr>))"

text \<open>\<open>xs.index(x)\<close> for an \<open>x\<close> that occurs in \<open>xs\<close>.\<close>

definition list_index :: "'a list \<Rightarrow> 'a \<Rightarrow> nat" where
  "list_index xs x = length (takeWhile (\<lambda>y. y \<noteq> x) xs)"

definition change_phone :: "bound \<Rightarrow> Record \<Rightarrow> string \<Rightarrow> string \<Rightarrow> (exn + unit) \<times> Record" where
  "change_phone bound self old_phone new_phone =
     (case call_attr bound instance_attrs ''_phone'' old_phone of
        Inl e \<Rightarrow> (Inl e, self)
      | Inr old \<Rightarrow>
          if old \<notin> set (phones self) then (Inl ValueError, self)
          else (case call_attr bound instance_attrs ''_phone'' new_phone of
                  Inl e \<Rightarrow> (Inl e, self)
                | Inr new \<Rightarrow>
                    if new \<in> set (phones self) then (Inl ValueError, self)
                    else (Inr (), self\<lparr>phones :=
                            (phones self)[list_index (phones self) old := new]\<rparr>)))"

text \<open>
  The \<open>try\<close> block of \<open>days_to_birthday\<close>: the birthday's month and day in this year, next
  year when that day is over, and the difference of the ordinals.
\<close>

definition bday_distance :: "date \<Rightarrow> string \<Rightarrow> exn + int" where
  "bday_distance today b =
     (case fromisoformat b of Inl e \<Rightarrow> Inl e | Inr d \<Rightarrow>
     (case replace_year d (year today) of Inl e \<Rightarrow> Inl e | Inr bday \<Rightarrow>
        if date_less bday today
        then (case replace_year bday (year today + 1) of
                Inl e \<Rightarrow> Inl e
              | Inr bday' \<Rightarrow> Inr (int (toordinal bday') - int (toordinal today)))
        else Inr (int (toordinal bday) - int (toordinal today))))"

text \<open>
  \<open>days_to_birthday\<close>, with \<open>date.today()\<close> as the argument \<open>today\<close>. The handler of
  ValueError builds \<open>Record(self.name, [], <28 February of this year>)\<close>, the date string
  in the third position, and calls itself on that record.
\<close>

function days_to_birthday :: "bound \<Rightarrow> date \<Rightarrow> Record \<Rightarrow> exn + int" where
  "days_to_birthday bound today self =
     (case birthday self of
        None \<Rightarrow> Inl KeyError
      | Some b \<Rightarrow>
          (case bday_distance today b of
             Inr n \<Rightarrow> Inr n
           | Inl e \<Rightarrow>
               if e \<noteq> ValueError then Inl e
               else (case date_new (year today) 2 28 of
                       Inl e' \<Rightarrow> Inl e'
                     | Inr feb28 \<Rightarrow>
                         (case Record_init bound (name self) [] (Some (isoformat feb28))
                                 None None of
                            Inl e' \<Rightarrow> Inl e'
                          | Inr exept_temp \<Rightarrow>
                              (case days_to_birthday bound today exept_temp of
                                 Inl e' \<Rightarrow> Inl e'
                               | Inr n \<Rightarrow> Inr (n + 1))))))"
  by pat_completeness auto
termination
  by (relation "{}")
     (auto simp: Record_init_def call_attr_def Record_defs_def split: sum.splits)

text \<open>\<open>to_dict\<close>: the name mapped to the values under the keys phones, email, birthday, address.\<close>

type_synonym json_record = "string list \<times> string option \<times> string option \<times> string option"

definition to_dict :: "Record \<Rightarrow> (string \<times> json_record) list" where
  "to_dict self = [(name self, (phones self, email self, birthday self, address self))]"

section \<open>AddressBook\<close>

text \<open>\<open>self.data\<close>: the dictionary from names to records, as its items in insertion order.\<close>

type_synonym AddressBook = "(string \<times> Record) list"

definition getitem :: "AddressBook \<Rightarrow> string \<Rightarrow> exn + Record" where
  "getitem book key = (case map_of book key of None \<Rightarrow> Inl KeyError | Some record \<Rightarrow> Inr record)"

definition setitem :: "AddressBook \<Rightarrow> string \<Rightarrow> Record \<Rightarrow> (exn + unit) \<times> AddressBook" where
  "setitem book key val =
     (if key \<in> set (map fst book) then (Inl KeyError, book)
      else (Inr (), book @ [(key, val)]))"

definition add_record :: "AddressBook \<Rightarrow> Record \<Rightarrow> (exn + unit) \<times> AddressBook" where
  "add_record book record = setitem book (name record) record"

definition delitem :: "AddressBook \<Rightarrow> string \<Rightarrow> (exn + unit) \<times> AddressBook" where
  "delitem book key =
     (if key \<notin> set (map fst book) then (Inl KeyError, book)
      else (Inr (), filter (\<lambda>kv. fst kv \<noteq> key) book))"

definition values_of :: "('k \<times> 'v) list \<Rightarrow> 'v list" where
  "values_of book = map snd book"

text \<open>
  \<open>groups_days_to_bd\<close>, with \<open>date.today()\<close> as \<open>today\<close>. \<open>timedelta(days=n)\<close> raises
  OverflowError above 999999999 days, and so does the sum when it passes 31 December 9999
  (ordinal 3652059). \<open>last_date\<close> is kept as its ordinal.
\<close>

fun bd_loop :: "date \<Rightarrow> nat \<Rightarrow> Record list \<Rightarrow> Record list \<Rightarrow> exn + Record list" where
  "bd_loop current_date last_date [] list_records = Inr list_records"
| "bd_loop current_date last_date (record # rest) list_records =
     (case birthday record of
        None \<Rightarrow> Inl AttributeError
      | Some b \<Rightarrow>
          (case fromisoformat b of Inl e \<Rightarrow> Inl e | Inr d \<Rightarrow>
          (case replace_year d (year current_date) of Inl e \<Rightarrow> Inl e | Inr bd \<Rightarrow>
             bd_loop current_date last_date rest
               (if date_le current_date bd \<and> toordinal bd \<le> last_date
                then list_records @ [record] else list_records))))"

definition groups_days_to_bd :: "AddressBook \<Rightarrow> date \<Rightarrow> string \<Rightarrow> exn + Record list" where
  "groups_days_to_bd book today input_days =
     (if \<not> isdigit input_days then Inl ValueError
      else (case py_int input_days of
              Inl e \<Rightarrow> Inl e
            | Inr n \<Rightarrow>
                if n > 999999999 then Inl OverflowError
                else if toordinal today + n > 3652059 then Inl OverflowError
                else bd_loop today (toordinal today + n) (values_of book) []))"

text \<open>\<open>from_dict\<close>: one \<open>Record(...)\<close> and one \<open>add_record\<close> per item, stopping at a raise.\<close>

fun from_dict ::
  "bound \<Rightarrow> AddressBook \<Rightarrow> (string \<times> json_record) list \<Rightarrow> (exn + unit) \<times> AddressBook" where
  "from_dict bound book [] = (Inr (), book)"
| "from_dict bound book ((nm, (phs, em, bd, ad)) # rest) =
     (case Record_init bound nm phs em bd ad of
        Inl e \<Rightarrow> (Inl e, book)
      | Inr record \<Rightarrow>
          (case add_record book record of
             (Inl e, book') \<Rightarrow> (Inl e, book')
           | (Inr u, book') \<Rightarrow> from_dict bound book' rest))"

subsection \<open>Texts of \<open>search\<close>\<close>
















text \<open>
  \<open>iterator\<close>: the batches the generator yields when it is consumed to its end, or the
  error its first step raises. \<open>n\<close> is \<open>len(self.data)\<close> and \<open>counter\<close> starts at 1.
\<close>

fun iterator_loop :: "int \<Rightarrow> int \<Rightarrow> int \<Rightarrow> Record list \<Rightarrow> Record list \<Rightarrow> Record list list" where
  "iterator_loop item_number n counter [] list_records = []"
| "iterator_loop item_number n counter (record # rest) list_records =
     (if counter mod item_number = 0 \<or> counter = n
      then (list_records @ [record]) # iterator_loop item_number n (counter + 1) rest []
      else iterator_loop item_number n (counter + 1) rest (list_records @ [record]))"

definition iterator :: "AddressBook \<Rightarrow> int \<Rightarrow> exn + Record list list" where
  "iterator book item_number =
     (if item_number \<le> 0 then Inl ValueError
      else (let n = int (length book);
                item_number' = (if item_number > n then n else item_number)
            in Inr (iterator_loop item_number' n 1 (values_of book) [])))"

text \<open>The batches the specification describes: cut the list every \<open>p\<close> elements.\<close>

function chunks :: "nat \<Rightarrow> 'a list \<Rightarrow> 'a list list" where
  "chunks p xs = (if xs = [] \<or> p = 0 then [] else take p xs # chunks p (drop p xs))"
  by pat_completeness auto
termination
  by (relation "measure (\<lambda>(p, xs). length xs)") auto

declare chunks.simps [simp del]

text \<open>A non-negative integer string, as the specification words it: decimal digits, at least one.\<close>

definition nonneg_int_string :: "string \<Rightarrow> bool" where
  "nonneg_int_string s = (s \<noteq> [] \<and> list_all (\<lambda>c. c \<in> set ''0123456789'') s)"

text \<open>
  The phone forms of the specification: \<open>+380\<close>, \<open>380\<close>, \<open>80\<close> or \<open>0\<close> followed by
  nine decimal digits \<open>d\<close>.
\<close>

definition nine_digits :: "string \<Rightarrow> bool" where
  "nine_digits d = (length d = 9 \<and> list_all (\<lambda>c. c \<in> set ''0123456789'') d)"

definition phone_form :: "string \<Rightarrow> string \<Rightarrow> bool" where
  "phone_form s d = (nine_digits d
     \<and> (s = ''+380'' @ d \<or> s = ''380'' @ d \<or> s = ''80'' @ d \<or> s = ''0'' @ d))"






section \<open>Characters and patterns\<close>

lemma is_decimal_iff: "is_decimal c \<longleftrightarrow> c \<in> set ''0123456789''"
proof
  assume "c \<in> set ''0123456789''"
  then show "is_decimal c" by (auto simp: is_decimal_def ord_def)
next
  assume dec: "is_decimal c"
  define n :: nat where "n = of_char c"
  have c: "c = char_of n" by (simp add: n_def)
  from dec have "48 \<le> n \<and> n \<le> 57" by (simp add: is_decimal_def ord_def n_def)
  then have "n = 48 \<or> n = 49 \<or> n = 50 \<or> n = 51 \<or> n = 52 \<or> n = 53 \<or> n = 54 \<or> n = 55
      \<or> n = 56 \<or> n = 57" by arith
  then show "c \<in> set ''0123456789''" unfolding c by (auto simp: char_of_eq_iff)
qed

lemma derivs_Nothing: "derivs s Nothing = Nothing"
  by (induction s) simp_all

lemma derivs_Alt: "derivs s (Alt a b) = Alt (derivs s a) (derivs s b)"
  by (induction s arbitrary: a b) simp_all

lemma fullmatch_Nil: "fullmatch r [] = nullable r"
  by (simp add: fullmatch_def)

lemma fullmatch_Cons: "fullmatch r (c # cs) = fullmatch (deriv c r) cs"
  by (simp add: fullmatch_def)

lemma fullmatch_Nothing: "\<not> fullmatch Nothing s"
  by (simp add: fullmatch_def derivs_Nothing)

lemma fullmatch_Empty: "fullmatch Empty s \<longleftrightarrow> s = []"
  by (cases s) (simp_all add: fullmatch_def derivs_Nothing)

lemma fullmatch_Class: "fullmatch (Class p) s \<longleftrightarrow> (\<exists>c. s = [c] \<and> p c)"
proof (cases s)
  case Nil
  then show ?thesis by (simp add: fullmatch_Nil)
next
  case (Cons c cs)
  then show ?thesis
    using fullmatch_Empty[of cs] fullmatch_Nothing[of cs] by (simp add: fullmatch_Cons)
qed

lemma fullmatch_Alt: "fullmatch (Alt a b) s \<longleftrightarrow> fullmatch a s \<or> fullmatch b s"
  by (simp add: fullmatch_def derivs_Alt)

lemma fullmatch_Seq:
  "fullmatch (Seq a b) s \<longleftrightarrow> (\<exists>u v. s = u @ v \<and> fullmatch a u \<and> fullmatch b v)"
proof (induction s arbitrary: a)
  case Nil
  show ?case by (simp add: fullmatch_Nil)
next
  case (Cons c cs)
  have step: "fullmatch (Seq (deriv c a) b) cs
      \<longleftrightarrow> (\<exists>u v. c # cs = (c # u) @ v \<and> fullmatch a (c # u) \<and> fullmatch b v)"
    by (simp add: Cons.IH fullmatch_Cons)
  have split: "(\<exists>u v. c # cs = u @ v \<and> fullmatch a u \<and> fullmatch b v)
      \<longleftrightarrow> (nullable a \<and> fullmatch b (c # cs))
        \<or> (\<exists>u v. c # cs = (c # u) @ v \<and> fullmatch a (c # u) \<and> fullmatch b v)"
    (is "?L \<longleftrightarrow> ?N \<or> ?C")
  proof
    assume ?L
    then obtain u v where uv: "c # cs = u @ v" "fullmatch a u" "fullmatch b v" by blast
    show "?N \<or> ?C"
    proof (cases u)
      case Nil
      with uv show ?thesis by (simp add: fullmatch_Nil)
    next
      case (Cons d u')
      with uv have "d = c" by simp
      with uv Cons show ?thesis by auto
    qed
  next
    assume "?N \<or> ?C"
    then show ?L
    proof
      assume ?N
      then have "c # cs = [] @ (c # cs) \<and> fullmatch a [] \<and> fullmatch b (c # cs)"
        by (simp add: fullmatch_Nil)
      then show ?L by blast
    next
      assume ?C
      then show ?L by blast
    qed
  qed
  show ?case
    unfolding split step[symmetric]
    by (auto simp: fullmatch_Cons fullmatch_Alt)
qed

lemma fullmatch_Class_Seq:
  "fullmatch (Seq (Class p) r) s \<longleftrightarrow> (\<exists>c t. s = c # t \<and> p c \<and> fullmatch r t)"
  by (cases s)
     (simp_all add: fullmatch_Nil fullmatch_Cons fullmatch_Seq fullmatch_Empty fullmatch_Nothing)

lemma fullmatch_lit: "fullmatch (lit l) s \<longleftrightarrow> s = l"
proof (induction l arbitrary: s)
  case Nil
  show ?case by (simp add: fullmatch_Empty)
next
  case (Cons c cs)
  show ?case by (auto simp: fullmatch_Class_Seq Cons.IH)
qed

lemma fullmatch_rep_Class:
  "fullmatch (rep n (Class p)) s \<longleftrightarrow> length s = n \<and> list_all p s"
proof (induction n arbitrary: s)
  case 0
  show ?case by (auto simp: fullmatch_Empty)
next
  case (Suc n)
  show ?case by (cases s) (auto simp: fullmatch_Class_Seq Suc.IH)
qed

lemma is_decimal_eq: "is_decimal = (\<lambda>c. c \<in> set ''0123456789'')"
  by (rule ext) (rule is_decimal_iff)

lemma fullmatch_phone_pattern:
  "fullmatch phone_pattern s \<longleftrightarrow>
     (\<exists>d. length d = 9 \<and> list_all is_decimal d
        \<and> (s = ''+380'' @ d \<or> s = ''380'' @ d \<or> s = ''80'' @ d \<or> s = ''0'' @ d))"
  unfolding phone_pattern_def fullmatch_Alt fullmatch_Seq fullmatch_lit fullmatch_rep_Class
  by blast

section \<open>Field construction\<close>

lemma abstractmethods_Name: "abstractmethods Name = [''_validate'']"
  by (simp add: abstractmethods_def class_dict_def mangle_def)

lemma abstractmethods_Phone: "abstractmethods Phone = []"
  by (simp add: abstractmethods_def class_dict_def mangle_def)

lemma Phone_init_unfold:
  "AbstractField_init Phone today v =
     (if fullmatch phone_pattern (strip_separators v) then Inr v else Inl ValueError)"
  by (simp add: AbstractField_init_def abstractmethods_Phone value_setter_def call_validate_def
      class_dict_def mangle_def own_validate_def Phone_validate_def Let_def)

lemma fullmatch_phone_national: "fullmatch phone_pattern ''0931112233''"
  by (simp add: fullmatch_def phone_pattern_def is_decimal_def ord_def numeral_nat)

lemma fullmatch_phone_international: "fullmatch phone_pattern ''+380931112233''"
  by (simp add: fullmatch_def phone_pattern_def is_decimal_def ord_def numeral_nat)

lemma phone_pattern_forms: "fullmatch phone_pattern s \<longleftrightarrow> (\<exists>d. phone_form s d)"
  by (simp add: fullmatch_phone_pattern phone_form_def nine_digits_def is_decimal_eq)

lemma Phone_init_accepts_iff:
  "AbstractField_init Phone today v =
     (if \<exists>d. phone_form (strip_separators v) d then Inr v else Inl ValueError)"
  by (simp add: Phone_init_unfold phone_pattern_forms)

lemma Phone_validate_normal_form:
  assumes "phone_form (strip_separators v) d"
  shows "Phone_validate v = Inr (Some (''+380'' @ d))"
proof -
  from assms have "fullmatch phone_pattern (strip_separators v)"
    using phone_pattern_forms by blast
  moreover from assms have "drop (length (strip_separators v) - 9) (strip_separators v) = d"
    by (auto simp: phone_form_def nine_digits_def)
  ultimately show ?thesis by (simp add: Phone_validate_def Let_def)
qed

text \<open>
  C1. \<open>Phone._validate\<close> computes the normal form \<open>+380\<close> followed by the last nine digits,
  but the setter stores its own argument: a Phone built from \<open>0931112233\<close>, or from
  \<open>+380 (93) 111-22-33\<close>, is accepted and holds the raw string, separators included, and
  not \<open>+380931112233\<close>.
\<close>

theorem Phone_stores_raw_value:
  "Phone_validate ''0931112233'' = Inr (Some ''+380931112233'')
   \<and> AbstractField_init Phone today ''0931112233'' = Inr ''0931112233''
   \<and> AbstractField_init Phone today ''+380 (93) 111-22-33'' = Inr ''+380 (93) 111-22-33''"
proof (intro conjI)
  show "Phone_validate ''0931112233'' = Inr (Some ''+380931112233'')"
    by (simp add: Phone_validate_def strip_separators_def fullmatch_phone_national)
  show "AbstractField_init Phone today ''0931112233'' = Inr ''0931112233''"
    by (simp add: Phone_init_unfold strip_separators_def fullmatch_phone_national)
  show "AbstractField_init Phone today ''+380 (93) 111-22-33'' = Inr ''+380 (93) 111-22-33''"
    by (simp add: Phone_init_unfold strip_separators_def fullmatch_phone_international)
qed

text \<open>
  C3. The length check of \<open>Name\<close> is written under the name \<open>__validate\<close>, which the class
  stores as \<open>_Name__validate\<close>; \<open>_validate\<close> stays abstract, so constructing a Name raises
  TypeError for every string, whatever its length.
\<close>

theorem Name_init_raises: "AbstractField_init Name today v = Inl TypeError"
  by (simp add: AbstractField_init_def abstractmethods_Name)

section \<open>Record construction and mutation\<close>

lemma call_attr_helper:
  "h \<in> set [''_name'', ''_phone'', ''_email'', ''_birthday'', ''_address'']
    \<Longrightarrow> set inst \<subseteq> set instance_attrs \<Longrightarrow> call_attr bound inst h x = Inl AttributeError"
  by (auto simp: call_attr_def Record_defs_def instance_attrs_def)

lemma Record_init_AttributeError: "Record_init bound nm phs em bd ad = Inl AttributeError"
  by (simp add: Record_init_def call_attr_helper)

text \<open>
  C2. Constructing a Record raises AttributeError for every combination of arguments: none
  of the names \<open>_name\<close>, \<open>_phone\<close>, \<open>_email\<close>, \<open>_birthday\<close>, \<open>_address\<close> is bound on the
  instance or in the class body, and the constructor calls \<open>self._name\<close> first. The
  mutating methods that call these names raise as well and leave the record as it was.
\<close>

theorem Record_init_raises:
  "Record_init bound nm phs em bd ad = Inl AttributeError
   \<and> list_all (\<lambda>h. h \<notin> set (instance_attrs @ Record_defs))
        [''_name'', ''_phone'', ''_email'', ''_birthday'', ''_address'']
   \<and> remove_phone bound self x = (Inl AttributeError, self)
   \<and> change_email bound self x = (Inl AttributeError, self)
   \<and> change_birthday bound self x = (Inl AttributeError, self)
   \<and> change_address bound self x = (Inl AttributeError, self)
   \<and> add_phone bound self x
        = (Inl (if x \<in> set (phones self) then ValueError else AttributeError), self)"
proof (intro conjI)
  show "Record_init bound nm phs em bd ad = Inl AttributeError"
    by (simp add: Record_init_def call_attr_helper)
  show "list_all (\<lambda>h. h \<notin> set (instance_attrs @ Record_defs))
        [''_name'', ''_phone'', ''_email'', ''_birthday'', ''_address'']"
    by (simp add: instance_attrs_def Record_defs_def)
  show "remove_phone bound self x = (Inl AttributeError, self)"
    by (simp add: remove_phone_def call_attr_helper)
  show "change_email bound self x = (Inl AttributeError, self)"
    by (simp add: change_email_def call_attr_helper)
  show "change_birthday bound self x = (Inl AttributeError, self)"
    by (simp add: change_birthday_def call_attr_helper)
  show "change_address bound self x = (Inl AttributeError, self)"
    by (simp add: change_address_def call_attr_helper)
  show "add_phone bound self x
        = (Inl (if x \<in> set (phones self) then ValueError else AttributeError), self)"
    by (simp add: add_phone_def call_attr_helper)
qed

text \<open>
  C8. \<open>change_phone\<close> converts \<open>old_phone\<close> through \<open>self._phone\<close> before anything else, so
  it raises AttributeError for every record and every pair of phones, and the phone list
  stays as it was: nothing is replaced, and neither the not-found nor the duplicate error
  is reached.
\<close>

theorem change_phone_raises:
  "change_phone bound self old_phone new_phone = (Inl AttributeError, self)"
  by (simp add: change_phone_def call_attr_helper)

lemma fromisoformat_leap_day:
  "fromisoformat ''2000-02-29'' = Inr \<lparr>year = 2000, month = 2, day = 29\<rparr>"
  by (simp add: fromisoformat_def py_int_def is_decimal_def ord_def digit_val_def date_new_def
      days_in_month_def is_leap_def)

lemma days_to_birthday_leap_day_general:
  assumes "fromisoformat b = Inr d" "month d = 2" "day d = 29"
    and "\<not> is_leap (year today)" "1 \<le> year today" "year today \<le> 9999"
    and "birthday self = Some b"
  shows "days_to_birthday bound today self = Inl AttributeError"
proof -
  have "replace_year d (year today) = Inl ValueError"
    using assms(2-4) by (simp add: replace_year_def date_new_def days_in_month_def)
  then have "bday_distance today b = Inl ValueError"
    using assms(1) by (simp add: bday_distance_def)
  moreover have "date_new (year today) 2 28
      = Inr \<lparr>year = year today, month = 2, day = 28\<rparr>"
    using assms(4-6) by (simp add: date_new_def days_in_month_def)
  ultimately show ?thesis
    using assms(7) by (simp add: Record_init_AttributeError)
qed

text \<open>
  C4. For a birthday of 2000-02-29 and the date 2023-03-01, \<open>days_to_birthday\<close> raises
  AttributeError: moving the birthday into 2023 raises ValueError, and the handler then
  constructs a Record, which raises.
\<close>

theorem days_to_birthday_leap_day_raises:
  "days_to_birthday bound \<lparr>year = 2023, month = 3, day = 1\<rparr>
     \<lparr>name = nm, phones = phs, email = em, birthday = Some ''2000-02-29'', address = ad\<rparr>
   = Inl AttributeError"
  by (simp add: fromisoformat_leap_day bday_distance_def replace_year_def date_new_def
      days_in_month_def is_leap_def Record_init_AttributeError)

text \<open>
  C9. \<open>from_dict\<close> applied to the \<open>to_dict\<close> of a record raises AttributeError and leaves
  the book as it was, so no record is reconstructed.
\<close>

theorem from_dict_to_dict_raises:
  "from_dict bound book (to_dict record) = (Inl AttributeError, book)"
  by (simp add: to_dict_def Record_init_AttributeError)

section \<open>AddressBook: keys\<close>

lemma getitem_append_new:
  assumes "key \<notin> set (map fst book)"
  shows "getitem (book @ [(key, val)]) key = Inr val"
proof -
  from assms have "map_of book key = None" by (simp add: map_of_eq_None_iff)
  then show ?thesis by (simp add: getitem_def map_add_def)
qed

lemma getitem_present:
  assumes "key \<in> set (map fst book)"
  shows "\<exists>old. getitem book key = Inr old"
proof -
  from assms have "map_of book key \<noteq> None" by (simp add: map_of_eq_None_iff)
  then show ?thesis by (auto simp: getitem_def)
qed

text \<open>
  C5. When the name of a record is already a key of the book, \<open>add_record\<close> raises KeyError
  and the book is the same afterwards, so the record stored under the key is still the one
  stored before. In particular, after a first record was added, adding a second record of
  the same name raises KeyError and the first one is still found under the name.
\<close>

theorem add_record_duplicate:
  "(name record \<in> set (map fst book) \<longrightarrow>
      add_record book record = (Inl KeyError, book)
      \<and> (\<exists>old. getitem book (name record) = Inr old
            \<and> getitem (snd (add_record book record)) (name record) = Inr old))
   \<and> (add_record book first = (Inr (), book2) \<and> name second = name first \<longrightarrow>
      add_record book2 second = (Inl KeyError, book2) \<and> getitem book2 (name first) = Inr first)"
proof (intro conjI impI)
  assume present: "name record \<in> set (map fst book)"
  then show same: "add_record book record = (Inl KeyError, book)"
    by (simp add: add_record_def setitem_def)
  from getitem_present[OF present] obtain old where "getitem book (name record) = Inr old" ..
  then show "\<exists>old. getitem book (name record) = Inr old
            \<and> getitem (snd (add_record book record)) (name record) = Inr old"
    by (simp add: same)
next
  assume a: "add_record book first = (Inr (), book2) \<and> name second = name first"
  then have new: "name first \<notin> set (map fst book)" and b1: "book2 = book @ [(name first, first)]"
    by (auto simp: add_record_def setitem_def split: if_splits)
  show "add_record book2 second = (Inl KeyError, book2)"
    using a by (simp add: add_record_def setitem_def b1)
  show "getitem book2 (name first) = Inr first"
    unfolding b1 using new by (rule getitem_append_new)
qed

theorem add_record_duplicate_witness:
  "''Bob'' \<in> set (map fst [(''Bob'', \<lparr>name = ''Bob'', phones = [''+380991234567''],
        email = None, birthday = None, address = None\<rparr>)])
   \<and> add_record [(''Bob'', \<lparr>name = ''Bob'', phones = [''+380991234567''],
        email = None, birthday = None, address = None\<rparr>)]
        \<lparr>name = ''Bob'', phones = [], email = None, birthday = None, address = None\<rparr>
      = (Inl KeyError, [(''Bob'', \<lparr>name = ''Bob'', phones = [''+380991234567''],
        email = None, birthday = None, address = None\<rparr>)])
   \<and> add_record []
        \<lparr>name = ''Bob'', phones = [''+380991234567''], email = None, birthday = None,
          address = None\<rparr>
      = (Inr (), [(''Bob'', \<lparr>name = ''Bob'', phones = [''+380991234567''],
        email = None, birthday = None, address = None\<rparr>)])
   \<and> getitem [(''Bob'', \<lparr>name = ''Bob'', phones = [''+380991234567''],
        email = None, birthday = None, address = None\<rparr>)] ''Bob''
      = Inr \<lparr>name = ''Bob'', phones = [''+380991234567''], email = None, birthday = None,
          address = None\<rparr>"
  using add_record_duplicate
    [of "\<lparr>name = ''Bob'', phones = [], email = None, birthday = None, address = None\<rparr>"
        "[(''Bob'', \<lparr>name = ''Bob'', phones = [''+380991234567''],
            email = None, birthday = None, address = None\<rparr>)]"
        "\<lparr>name = ''Bob'', phones = [], email = None, birthday = None, address = None\<rparr>"
        "[]"
        "\<lparr>name = ''Bob'', phones = [], email = None, birthday = None, address = None\<rparr>"]
    add_record_duplicate
    [of "\<lparr>name = ''Bob'', phones = [], email = None, birthday = None, address = None\<rparr>"
        "[]"
        "\<lparr>name = ''Bob'', phones = [''+380991234567''], email = None, birthday = None,
          address = None\<rparr>"
        "[(''Bob'', \<lparr>name = ''Bob'', phones = [''+380991234567''],
            email = None, birthday = None, address = None\<rparr>)]"
        "\<lparr>name = ''Bob'', phones = [], email = None, birthday = None, address = None\<rparr>"]
  by (simp add: add_record_def setitem_def)

section \<open>AddressBook: the birthday window\<close>

lemma bd_loop_fails:
  "\<exists>r \<in> set rs. birthday r = None \<Longrightarrow> \<exists>e. bd_loop cur lst rs acc = Inl e"
proof (induction rs arbitrary: acc)
  case Nil then show ?case by simp
next
  case (Cons r rs)
  show ?case
  proof (cases "birthday r")
    case None then show ?thesis by simp
  next
    case (Some b)
    with Cons.prems have "\<exists>r \<in> set rs. birthday r = None" by auto
    from Cons.IH[OF this] show ?thesis using Some
      by (auto split: sum.splits)
  qed
qed

lemma py_int_iff: "py_int s = Inl ValueError \<longleftrightarrow> \<not> nonneg_int_string s"
proof -
  have e: "is_decimal = (\<lambda>c. c \<in> set ''0123456789'')"
    by (rule ext) (rule is_decimal_iff)
  show ?thesis unfolding py_int_def nonneg_int_string_def e by simp
qed

text \<open>
  C6. When some record of the book has no birthday, \<open>groups_days_to_bd\<close> raises for every
  non-negative integer string instead of skipping that record; and for every string that
  is no non-negative integer string it raises ValueError whatever the book holds, so no
  record is looked at before.
\<close>

theorem groups_days_to_bd_fails:
  "(nonneg_int_string input_days \<and> None \<in> set (map birthday (values_of book))
      \<longrightarrow> (\<exists>e. groups_days_to_bd book today input_days = Inl e))
   \<and> (\<not> nonneg_int_string input_days
      \<longrightarrow> groups_days_to_bd book today input_days = Inl ValueError)"
proof (intro conjI impI)
  assume "nonneg_int_string input_days \<and> None \<in> set (map birthday (values_of book))"
  then have "\<exists>r \<in> set (values_of book). birthday r = None" by force
  from bd_loop_fails[OF this]
  show "\<exists>e. groups_days_to_bd book today input_days = Inl e"
    by (simp add: groups_days_to_bd_def split: sum.splits)
next
  assume "\<not> nonneg_int_string input_days"
  then have "py_int input_days = Inl ValueError" by (simp add: py_int_iff)
  then show "groups_days_to_bd book today input_days = Inl ValueError"
    by (simp add: groups_days_to_bd_def)
qed

theorem groups_days_to_bd_fails_witness:
  "nonneg_int_string ''7''
   \<and> None \<in> set (map birthday (values_of
        [(''Bob'', \<lparr>name = ''Bob'', phones = [], email = None, birthday = None,
            address = None\<rparr>)]))
   \<and> (\<exists>e. groups_days_to_bd
        [(''Bob'', \<lparr>name = ''Bob'', phones = [], email = None, birthday = None,
            address = None\<rparr>)] \<lparr>year = 2023, month = 3, day = 1\<rparr> ''7'' = Inl e)
   \<and> \<not> nonneg_int_string ''7 days''
   \<and> groups_days_to_bd
        [(''Bob'', \<lparr>name = ''Bob'', phones = [], email = None, birthday = None,
            address = None\<rparr>)] \<lparr>year = 2023, month = 3, day = 1\<rparr> ''7 days''
      = Inl ValueError"
  using groups_days_to_bd_fails
    [of "''7''" "[(''Bob'', \<lparr>name = ''Bob'', phones = [], email = None, birthday = None,
            address = None\<rparr>)]" "\<lparr>year = 2023, month = 3, day = 1\<rparr>"]
    groups_days_to_bd_fails
    [of "''7 days''" "[(''Bob'', \<lparr>name = ''Bob'', phones = [], email = None,
            birthday = None, address = None\<rparr>)]" "\<lparr>year = 2023, month = 3, day = 1\<rparr>"]
  by (simp add: nonneg_int_string_def values_of_def)

section \<open>AddressBook: batches\<close>

lemma chunks_Nil [simp]: "chunks p [] = []"
  by (simp add: chunks.simps)

lemma chunks_short: "xs \<noteq> [] \<Longrightarrow> length xs \<le> p \<Longrightarrow> chunks p xs = [xs]"
proof -
  assume ne: "xs \<noteq> []" and le: "length xs \<le> p"
  from ne have "0 < length xs" by simp
  then have "0 < p" using le by (rule less_le_trans)
  then have "p \<noteq> 0" by simp
  then show ?thesis using ne le by (subst chunks.simps) simp
qed

lemma chunks_append: "length xs = p \<Longrightarrow> 0 < p \<Longrightarrow> chunks p (xs @ ys) = xs # chunks p ys"
  by (subst chunks.simps) auto

lemma full_batch:
  fixes p c l :: int
  assumes "0 < p" "p dvd (c - 1 - l)" "0 \<le> l" "l < p" "c mod p = 0"
  shows "l + 1 = p"
proof -
  from assms(5) have "p dvd c" by (simp add: dvd_eq_mod_eq_0)
  then have "p dvd (c - (c - 1 - l))" using assms(2) by (rule dvd_diff)
  then have "p dvd (l + 1)" by (simp add: algebra_simps)
  then have "p \<le> l + 1" using assms(3) by (intro zdvd_imp_le) auto
  with assms(4) show ?thesis by simp
qed

lemma open_batch:
  fixes p c l :: int
  assumes "0 < p" "p dvd (c - 1 - l)" "l < p" "c mod p \<noteq> 0"
  shows "l + 1 < p"
proof (rule ccontr)
  assume "\<not> l + 1 < p"
  with assms(3) have "l = p - 1" by simp
  with assms(2) have "p dvd (c - p)" by simp
  then have "p dvd ((c - p) + p)" by (rule dvd_add) simp
  then have "p dvd c" by simp
  with assms(4) show False by (simp add: dvd_eq_mod_eq_0)
qed

lemma iterator_loop_chunks:
  assumes "0 < p" "int (length rs) + c = n + 1"
    "p dvd (c - 1 - int (length acc))" "int (length acc) < p" "rs = [] \<longrightarrow> acc = []"
  shows "iterator_loop p n c rs acc = chunks (nat p) (acc @ rs)"
  using assms
proof (induction rs arbitrary: c acc)
  case Nil
  then show ?case by simp
next
  case (Cons r rs)
  show ?case
  proof (cases "c mod p = 0")
    case True
    have len: "int (length acc) + 1 = p"
      using Cons.prems(1,3,4) True by (intro full_batch[of p c]) auto
    then have len': "length (acc @ [r]) = nat p" by simp
    have "iterator_loop p n (c + 1) rs [] = chunks (nat p) ([] @ rs)"
      using Cons.prems True by (intro Cons.IH) (auto simp: dvd_eq_mod_eq_0)
    moreover have "chunks (nat p) ((acc @ [r]) @ rs) = (acc @ [r]) # chunks (nat p) rs"
      using len' Cons.prems(1) by (intro chunks_append) auto
    ultimately show ?thesis using True by simp
  next
    case False
    have lt: "int (length acc) + 1 < p"
      using Cons.prems(1,3,4) False by (intro open_batch[of p c]) auto
    show ?thesis
    proof (cases "c = n")
      case True
      with Cons.prems(2) have "rs = []" by simp
      moreover have "chunks (nat p) (acc @ [r]) = [acc @ [r]]"
        using lt by (intro chunks_short) auto
      ultimately show ?thesis using True False by simp
    next
      case ne: False
      with Cons.prems(2) have "rs \<noteq> []" by auto
      have "iterator_loop p n (c + 1) rs (acc @ [r]) = chunks (nat p) ((acc @ [r]) @ rs)"
      proof (rule Cons.IH)
        show "0 < p" by (rule Cons.prems(1))
        show "int (length rs) + (c + 1) = n + 1" using Cons.prems(2) by simp
        have "c + 1 - 1 - int (length (acc @ [r])) = c - 1 - int (length acc)" by simp
        then show "p dvd (c + 1 - 1 - int (length (acc @ [r])))"
          using Cons.prems(3) by (simp only:)
        show "int (length (acc @ [r])) < p" using lt by simp
        show "rs = [] \<longrightarrow> acc @ [r] = []" using \<open>rs \<noteq> []\<close> by simp
      qed
      then show ?thesis using ne False by simp
    qed
  qed
qed

lemma chunks_unfold: "xs \<noteq> [] \<Longrightarrow> 0 < p \<Longrightarrow> chunks p xs = take p xs # chunks p (drop p xs)"
  by (subst chunks.simps) simp

lemma concat_chunks: "0 < p \<Longrightarrow> concat (chunks p xs) = xs"
proof (induction p xs rule: chunks.induct)
  case (1 p xs)
  show ?case
  proof (cases "xs = []")
    case True then show ?thesis by simp
  next
    case False
    with 1 have "concat (chunks p (drop p xs)) = drop p xs" by simp
    then show ?thesis using False "1.prems" by (simp add: chunks_unfold)
  qed
qed

lemma chunks_butlast: "0 < p \<Longrightarrow> b \<in> set (butlast (chunks p xs)) \<Longrightarrow> length b = p"
proof (induction p xs rule: chunks.induct)
  case (1 p xs)
  show ?case
  proof (cases "xs = []")
    case True with "1.prems" show ?thesis by simp
  next
    case False
    have eq: "chunks p xs = take p xs # chunks p (drop p xs)"
      using False "1.prems"(1) by (rule chunks_unfold)
    show ?thesis
    proof (cases "chunks p (drop p xs) = []")
      case True
      with "1.prems"(2) eq show ?thesis by simp
    next
      case ne: False
      then have "drop p xs \<noteq> []" by auto
      then have full: "length (take p xs) = p" by simp
      from "1.prems"(2) eq ne have "b = take p xs \<or> b \<in> set (butlast (chunks p (drop p xs)))"
        by simp
      then show ?thesis
      proof
        assume "b = take p xs" with full show ?thesis by simp
      next
        assume "b \<in> set (butlast (chunks p (drop p xs)))"
        then show ?thesis using False "1.prems"(1) "1.IH" by simp
      qed
    qed
  qed
qed

lemma chunks_last:
  "0 < p \<Longrightarrow> xs \<noteq> [] \<Longrightarrow> last (chunks p xs) \<noteq> [] \<and> length (last (chunks p xs)) \<le> p"
proof (induction p xs rule: chunks.induct)
  case (1 p xs)
  have eq: "chunks p xs = take p xs # chunks p (drop p xs)"
    using "1.prems"(2,1) by (rule chunks_unfold)
  show ?case
  proof (cases "drop p xs = []")
    case True
    then show ?thesis using eq "1.prems" by simp
  next
    case False
    then have "chunks p (drop p xs) \<noteq> []" using "1.prems"(1) by (simp add: chunks_unfold)
    moreover have "last (chunks p (drop p xs)) \<noteq> [] \<and> length (last (chunks p (drop p xs))) \<le> p"
      using "1.IH" "1.prems" False by simp
    ultimately show ?thesis using eq by simp
  qed
qed

lemma chunks_eq_Nil: "chunks p xs = [] \<longleftrightarrow> xs = [] \<or> p = 0"
  by (subst chunks.simps) simp

lemma iterator_chunks:
  assumes "0 < p"
  shows "iterator book p = Inr (chunks (nat (min p (int (length book)))) (values_of book))"
proof (cases "book = []")
  case True
  then show ?thesis using assms by (simp add: iterator_def values_of_def)
next
  case False
  define n where "n = int (length book)"
  define q where "q = (if p > n then n else p)"
  have q: "0 < q" "q = min p n" using assms False by (auto simp: q_def n_def)
  have "iterator_loop q n 1 (values_of book) [] = chunks (nat q) ([] @ values_of book)"
    using q(1) False by (intro iterator_loop_chunks) (auto simp: values_of_def n_def)
  then show ?thesis using assms q(2)
    by (simp add: iterator_def Let_def n_def[symmetric] q_def[symmetric])
qed

text \<open>
  C7. \<open>iterator\<close> raises ValueError for a page size of 0 or less. For a positive page size
  \<open>p\<close> over a book of \<open>n\<close> records the batches, put end to end, are the records in
  insertion order; every batch but the last has \<open>min p n\<close> records, and the last one is
  not empty and no longer than that. A page size above \<open>n\<close> gives the whole book as one
  batch, and a page size of 2 over five records gives batches of 2, 2 and 1 records.
\<close>

theorem iterator_batches:
  "(p \<le> 0 \<longrightarrow> iterator book p = Inl ValueError)
   \<and> (0 < p \<longrightarrow> (\<exists>bs. iterator book p = Inr bs
         \<and> concat bs = values_of book
         \<and> (\<forall>b \<in> set (butlast bs). int (length b) = min p (int (length book)))
         \<and> (bs \<noteq> [] \<longrightarrow> last bs \<noteq> [] \<and> int (length (last bs)) \<le> min p (int (length book)))))
   \<and> (int (length book) < p \<longrightarrow>
         iterator book p = Inr (if book = [] then [] else [values_of book]))
   \<and> (length book = 5 \<longrightarrow> (\<exists>bs. iterator book 2 = Inr bs \<and> map length bs = [2, 2, 1]))"
proof (intro conjI impI)
  assume "p \<le> 0"
  then show "iterator book p = Inl ValueError" by (simp add: iterator_def)
next
  assume p: "0 < p"
  define q where "q = nat (min p (int (length book)))"
  define bs where "bs = chunks q (values_of book)"
  have it: "iterator book p = Inr bs" using iterator_chunks[OF p] by (simp add: bs_def q_def)
  show "\<exists>bs. iterator book p = Inr bs
         \<and> concat bs = values_of book
         \<and> (\<forall>b \<in> set (butlast bs). int (length b) = min p (int (length book)))
         \<and> (bs \<noteq> [] \<longrightarrow> last bs \<noteq> [] \<and> int (length (last bs)) \<le> min p (int (length book)))"
  proof (cases "book = []")
    case True
    then have "bs = []" by (simp add: bs_def values_of_def)
    with it True show ?thesis by (simp add: values_of_def)
  next
    case False
    then have q: "0 < q" "int q = min p (int (length book))" using p by (auto simp: q_def)
    have ne: "values_of book \<noteq> []" using False by (simp add: values_of_def)
    have 1: "concat bs = values_of book" unfolding bs_def using q(1) by (rule concat_chunks)
    have 2: "\<forall>b \<in> set (butlast bs). int (length b) = min p (int (length book))"
      unfolding bs_def using chunks_butlast[OF q(1)] q(2) by auto
    have 3: "last bs \<noteq> [] \<and> int (length (last bs)) \<le> min p (int (length book))"
      unfolding bs_def using chunks_last[OF q(1) ne] q(2) by auto
    from it 1 2 3 show ?thesis by blast
  qed
next
  assume big: "int (length book) < p"
  then have p: "0 < p" by simp
  show "iterator book p = Inr (if book = [] then [] else [values_of book])"
  proof (cases "book = []")
    case True
    then show ?thesis using iterator_chunks[OF p] by (simp add: values_of_def)
  next
    case False
    have "chunks (length book) (values_of book) = [values_of book]"
      using False by (intro chunks_short) (auto simp: values_of_def)
    then show ?thesis using iterator_chunks[OF p] big False by (simp add: min_def)
  qed
next
  assume 5: "length book = 5"
  then obtain a b c d e where vs: "values_of book = [a, b, c, d, e]"
    by (auto simp: values_of_def length_Suc_conv eval_nat_numeral)
  have "iterator book 2 = Inr (chunks 2 (values_of book))"
    using iterator_chunks[of 2 book] 5 by simp
  moreover have "map length (chunks 2 [a, b, c, d, e]) = [2, 2, 1]"
    by (simp add: chunks.simps)
  ultimately show "\<exists>bs. iterator book 2 = Inr bs \<and> map length bs = [2, 2, 1]"
    using vs by simp
qed

theorem iterator_batches_witness:
  "(\<exists>bs. iterator (map (\<lambda>n. (n, \<lparr>name = n, phones = [], email = None, birthday = None,
              address = None\<rparr>)) [''Ann'', ''Bob'', ''Cat'', ''Dan'', ''Eve'']) 2 = Inr bs
        \<and> concat bs = values_of (map (\<lambda>n. (n, \<lparr>name = n, phones = [], email = None,
              birthday = None, address = None\<rparr>)) [''Ann'', ''Bob'', ''Cat'', ''Dan'', ''Eve''])
        \<and> map length bs = [2, 2, 1])
   \<and> iterator (map (\<lambda>n. (n, \<lparr>name = n, phones = [], email = None, birthday = None,
              address = None\<rparr>)) [''Ann'', ''Bob'', ''Cat'', ''Dan'', ''Eve'']) 0
      = Inl ValueError
   \<and> iterator (map (\<lambda>n. (n, \<lparr>name = n, phones = [], email = None, birthday = None,
              address = None\<rparr>)) [''Ann'', ''Bob'', ''Cat'', ''Dan'', ''Eve'']) 9
      = Inr [values_of (map (\<lambda>n. (n, \<lparr>name = n, phones = [], email = None,
              birthday = None, address = None\<rparr>)) [''Ann'', ''Bob'', ''Cat'', ''Dan'', ''Eve''])]"
  using iterator_batches
    [of 2 "map (\<lambda>n. (n, \<lparr>name = n, phones = [], email = None, birthday = None,
              address = None\<rparr>)) [''Ann'', ''Bob'', ''Cat'', ''Dan'', ''Eve'']"]
    iterator_batches
    [of 0 "map (\<lambda>n. (n, \<lparr>name = n, phones = [], email = None, birthday = None,
              address = None\<rparr>)) [''Ann'', ''Bob'', ''Cat'', ''Dan'', ''Eve'']"]
    iterator_batches
    [of 9 "map (\<lambda>n. (n, \<lparr>name = n, phones = [], email = None, birthday = None,
              address = None\<rparr>)) [''Ann'', ''Bob'', ''Cat'', ''Dan'', ''Eve'']"]
  by auto

section \<open>AddressBook: search\<close>

























end
